theory Spec2Isabelle
  imports Main
begin

section \<open>The document registry of automerge-repo (DocCollection.ts)\<close>

text \<open>
  \<^verbatim>\<open>DocCollection\<close> keeps a cache from document identifiers to \<^verbatim>\<open>DocHandle\<close> objects and
  offers \<^verbatim>\<open>create\<close>, \<^verbatim>\<open>find\<close> and \<^verbatim>\<open>delete\<close>. The embedding threads the registry through
  every call as an explicit state. Handles are objects with an identity, so they live in a
  store and the cache holds references into it. Every \<^verbatim>\<open>throw\<close> of the source is an
  \<open>Inl\<close> result; an operation returns its outcome together with the state it leaves behind.
\<close>

subsection \<open>Identifiers, urls and errors\<close>

type_synonym DocumentId = string
type_synonym AutomergeUrl = string
type_synonym BinaryDocumentId = "nat list"
type_synonym PeerId = string

text \<open>
  \<open>InvalidUrlError u\<close> is the error of \<^verbatim>\<open>find\<close> (\<^verbatim>\<open>Invalid AutomergeUrl: '<u>'\<close>) and of the
  codec's \<^verbatim>\<open>parse\<close>; \<open>InvalidDocumentId d\<close> is the error of \<^verbatim>\<open>#getHandle\<close>
  (\<^verbatim>\<open>Invalid documentId <d>\<close>); \<open>TypeError\<close> is what JavaScript raises when a method is
  called on a value that does not have it.
\<close>

datatype error = InvalidUrlError AutomergeUrl | InvalidDocumentId DocumentId | TypeError

subsection \<open>The url codec (DocUrl.ts)\<close>

text \<open>
  \<^verbatim>\<open>DocUrl.ts\<close> is imported by \<^verbatim>\<open>DocCollection.ts\<close> but is not among the sources. Its two
  primitives are parameters of the development: the scheme prefix, and the decoder
  \<^verbatim>\<open>documentIdToBinary\<close> from the text form of an identifier to its bytes, which yields
  nothing when the text is malformed or its checksum does not validate.
\<close>

record codec =
  urlPrefix :: string
  documentIdToBinary :: "DocumentId \<Rightarrow> BinaryDocumentId option"

text \<open>
  Modelled from the spec: \<^verbatim>\<open>parts\<close>, the split of a url of the form
  \<^verbatim>\<open><scheme-prefix><encoding-of-id-plus-checksum>\<close> into its identifier text; nothing when
  the prefix is malformed.
\<close>

definition parts :: "codec \<Rightarrow> string \<Rightarrow> DocumentId option" where
  "parts c str =
     (if take (length (urlPrefix c)) str = urlPrefix c
      then Some (drop (length (urlPrefix c)) str) else None)"

text \<open>
  Modelled from the spec: \<^verbatim>\<open>isValidAutomergeUrl\<close>, the pure boolean predicate usable as a
  guard before \<^verbatim>\<open>parse\<close>: the prefix is right and the checksum validates.
\<close>

definition isValidAutomergeUrl :: "codec \<Rightarrow> string \<Rightarrow> bool" where
  "isValidAutomergeUrl c str =
     (case parts c str of
        None \<Rightarrow> False
      | Some d \<Rightarrow> documentIdToBinary c d \<noteq> None)"

text \<open>
  Modelled from the spec: \<^verbatim>\<open>parseAutomergeUrl\<close>, which fails with \<^verbatim>\<open>InvalidUrlError\<close> on a
  bad checksum or a malformed prefix and otherwise yields the \<^verbatim>\<open>documentId\<close> of the url.
\<close>

definition parseAutomergeUrl :: "codec \<Rightarrow> AutomergeUrl \<Rightarrow> error + DocumentId" where
  "parseAutomergeUrl c url =
     (case parts c url of
        None \<Rightarrow> Inl (InvalidUrlError url)
      | Some d \<Rightarrow>
          (if documentIdToBinary c d = None then Inl (InvalidUrlError url) else Inr d))"

text \<open>
  Modelled from the spec: \<^verbatim>\<open>stringifyAutomergeUrl\<close>, the url of an identifier: the scheme
  prefix followed by the identifier's text.
\<close>

definition stringifyAutomergeUrl :: "codec \<Rightarrow> DocumentId \<Rightarrow> AutomergeUrl" where
  "stringifyAutomergeUrl c d = urlPrefix c @ d"

subsection \<open>Document handles (DocHandle.ts)\<close>

text \<open>
  \<^verbatim>\<open>DocHandle.ts\<close> is not among the sources either; the registry uses its constructor,
  \<^verbatim>\<open>isUnavailable()\<close>, \<^verbatim>\<open>delete()\<close> and \<^verbatim>\<open>emit\<close>. The handle below follows section 4.1 of the
  specification. The document value is opaque to the registry: a list of key/value pairs
  stands for it, the empty list for the empty document. \<open>visited\<close> is a ghost field: the
  lifecycle states the handle has entered so far, oldest first.
\<close>

datatype HandleState = IDLE | LOADING | REQUESTING | READY | UNAVAILABLE | DELETED

type_synonym Doc = "(string \<times> string) list"

record DocHandle =
  documentId :: DocumentId
  state :: HandleState
  doc :: "Doc option"
  visited :: "HandleState list"

text \<open>
  Modelled from the spec: the constructor \<^verbatim>\<open>new DocHandle(documentId, { isNew })\<close>. A handle
  starts \<^verbatim>\<open>idle\<close>; with \<^verbatim>\<open>isNew = true\<close> construction initialises an empty value and the
  handle is \<^verbatim>\<open>ready\<close>, with \<^verbatim>\<open>isNew = false\<close> construction triggers a load and the handle
  is \<^verbatim>\<open>loading\<close>.
\<close>

definition DocHandle_new :: "DocumentId \<Rightarrow> bool \<Rightarrow> DocHandle" where
  "DocHandle_new d isNew =
     (if isNew
      then \<lparr>documentId = d, state = READY, doc = Some [], visited = [IDLE, READY]\<rparr>
      else \<lparr>documentId = d, state = LOADING, doc = None, visited = [IDLE, LOADING]\<rparr>)"

text \<open>
  Modelled from the spec: the lifecycle edges of section 4.1 other than deletion, which the
  synchronisation router and the storage bridge drive from outside the registry.
\<close>

fun transition :: "HandleState \<Rightarrow> HandleState \<Rightarrow> bool" where
  "transition IDLE READY = True"
| "transition IDLE LOADING = True"
| "transition LOADING READY = True"
| "transition LOADING REQUESTING = True"
| "transition LOADING UNAVAILABLE = True"
| "transition REQUESTING READY = True"
| "transition REQUESTING UNAVAILABLE = True"
| "transition UNAVAILABLE READY = True"
| "transition READY READY = True"
| "transition _ _ = False"

subsection \<open>The registry state\<close>

text \<open>
  A handle object is a reference into the store \<open>heap\<close>; a new object is appended, so its
  reference is the length of the store before the allocation.

  The cache \<^verbatim>\<open>#handleCache\<close> is the object literal \<^verbatim>\<open>{}\<close>. Reading \<^verbatim>\<open>cache[k]\<close> yields the own
  property \<open>k\<close> when there is one and otherwise falls through to \<^verbatim>\<open>Object.prototype\<close>, whose
  properties are all truthy. \<open>obj\<close> is what such a read can yield; \<open>None\<close> stands for
  \<^verbatim>\<open>undefined\<close>.
\<close>

type_synonym ref = nat

datatype obj = Handle ref | Inherited string

datatype event =
    Document obj
  | DeleteDocument DocumentId
  | HandleDelete ref
  | HandleUnavailable ref obj

datatype task = EmitUnavailable DocumentId

datatype 'a promise = Resolved 'a | Rejected error

record DocCollection =
  handleCache :: "DocumentId \<rightharpoonup> ref"
  sharePolicy :: "PeerId \<Rightarrow> DocumentId \<Rightarrow> bool promise"
  heap :: "DocHandle list"
  emitted :: "event list"
  timers :: "task list"

text \<open>
  \<open>emitted\<close> is the trace of the events emitted so far, by the registry (\<open>Document\<close>,
  \<open>DeleteDocument\<close>) and by handles (\<open>HandleDelete r\<close>, \<open>HandleUnavailable r payload\<close>, with
  \<open>r\<close> the emitting handle). Listeners are outside the model: emitting an event appends it
  to the trace. \<open>timers\<close> holds the callbacks passed to \<^verbatim>\<open>setTimeout\<close> that have not run
  yet, oldest first.
\<close>

definition objectPrototypeProps :: "string list" where
  "objectPrototypeProps =
     [''constructor'', ''__defineGetter__'', ''__defineSetter__'', ''hasOwnProperty'',
      ''__lookupGetter__'', ''__lookupSetter__'', ''isPrototypeOf'',
      ''propertyIsEnumerable'', ''toString'', ''valueOf'', ''__proto__'',
      ''toLocaleString'']"

definition cacheGet :: "DocCollection \<Rightarrow> DocumentId \<Rightarrow> obj option" where
  "cacheGet s k =
     (case handleCache s k of
        Some r \<Rightarrow> Some (Handle r)
      | None \<Rightarrow> (if k \<in> set objectPrototypeProps then Some (Inherited k) else None))"

text \<open>The constructor: an empty cache, and \<^verbatim>\<open>sharePolicy = async () => true\<close>.\<close>

definition DocCollection_new :: DocCollection where
  "DocCollection_new =
     \<lparr>handleCache = Map.empty, sharePolicy = (\<lambda>peer d. Resolved True),
      heap = [], emitted = [], timers = []\<rparr>"

definition emit :: "event \<Rightarrow> DocCollection \<Rightarrow> DocCollection" where
  "emit e s = s\<lparr>emitted := emitted s @ [e]\<rparr>"

definition setTimeout :: "task \<Rightarrow> DocCollection \<Rightarrow> DocCollection" where
  "setTimeout t s = s\<lparr>timers := timers s @ [t]\<rparr>"

text \<open>
  Modelled from the spec: \<^verbatim>\<open>isUnavailable()\<close>, a snapshot read of the handle's state. A
  reference held by the cache is always allocated (\<open>inv_cached\<close> below), so the bound check
  holds wherever the registry calls the method.
\<close>

definition isUnavailable :: "DocCollection \<Rightarrow> ref \<Rightarrow> bool" where
  "isUnavailable s r = (r < length (heap s) \<and> state (heap s ! r) = UNAVAILABLE)"

text \<open>
  Modelled from the spec: \<^verbatim>\<open>handle.delete()\<close>, which transitions the handle to \<^verbatim>\<open>deleted\<close>,
  emits a deletion notification and releases the in-memory value.
\<close>

definition deleted :: "DocHandle \<Rightarrow> DocHandle" where
  "deleted h = h\<lparr>state := DELETED, doc := None, visited := visited h @ [DELETED]\<rparr>"

definition DocHandle_delete :: "ref \<Rightarrow> DocCollection \<Rightarrow> DocCollection" where
  "DocHandle_delete r s = emit (HandleDelete r) (s\<lparr>heap := (heap s)[r := deleted (heap s ! r)]\<rparr>)"

subsection \<open>The operations of DocCollection\<close>

text \<open>
  \<^verbatim>\<open>#getHandle(documentId, isNew)\<close>: the value read from the cache when it is truthy;
  otherwise an error for the empty identifier (the only falsy string), and otherwise a new
  handle, cached under the identifier. The assignment is reached only when the read yields
  \<^verbatim>\<open>undefined\<close>, so it never writes a key that \<^verbatim>\<open>Object.prototype\<close> defines.
\<close>

definition getHandle :: "DocumentId \<Rightarrow> bool \<Rightarrow> DocCollection \<Rightarrow> (error + obj) \<times> DocCollection" where
  "getHandle d isNew s =
     (case cacheGet s d of
        Some v \<Rightarrow> (Inr v, s)
      | None \<Rightarrow>
          (if d = [] then (Inl (InvalidDocumentId d), s)
           else (Inr (Handle (length (heap s))),
                 s\<lparr>heap := heap s @ [DocHandle_new d isNew],
                   handleCache := (handleCache s)(d \<mapsto> length (heap s))\<rparr>)))"

text \<open>
  \<^verbatim>\<open>create()\<close>. The url that \<^verbatim>\<open>generateAutomergeUrl()\<close> returns comes from a random source
  and is an argument of the model.
\<close>

definition create :: "codec \<Rightarrow> AutomergeUrl \<Rightarrow> DocCollection \<Rightarrow> (error + obj) \<times> DocCollection" where
  "create c generated s =
     (case parseAutomergeUrl c generated of
        Inl e \<Rightarrow> (Inl e, s)
      | Inr d \<Rightarrow>
          (case getHandle d True s of
             (Inl e, s') \<Rightarrow> (Inl e, s')
           | (Inr handle, s') \<Rightarrow> (Inr handle, emit (Document handle) s')))"

text \<open>
  \<^verbatim>\<open>find(automergeUrl)\<close>, named \<open>find_url\<close> here because \<open>find\<close> is a function on lists.
  On a cached value the source calls \<^verbatim>\<open>isUnavailable()\<close>, which a property inherited from
  \<^verbatim>\<open>Object.prototype\<close> does not have.
\<close>

definition find_url :: "codec \<Rightarrow> AutomergeUrl \<Rightarrow> DocCollection \<Rightarrow> (error + obj) \<times> DocCollection" where
  "find_url c automergeUrl s =
     (if \<not> isValidAutomergeUrl c automergeUrl then (Inl (InvalidUrlError automergeUrl), s)
      else
        (case parseAutomergeUrl c automergeUrl of
           Inl e \<Rightarrow> (Inl e, s)
         | Inr d \<Rightarrow>
             (case cacheGet s d of
                Some (Handle r) \<Rightarrow>
                  (Inr (Handle r),
                   if isUnavailable s r then setTimeout (EmitUnavailable d) s else s)
              | Some (Inherited p) \<Rightarrow> (Inl TypeError, s)
              | None \<Rightarrow>
                  (case getHandle d False s of
                     (Inl e, s') \<Rightarrow> (Inl e, s')
                   | (Inr handle, s') \<Rightarrow> (Inr handle, emit (Document handle) s')))))"

text \<open>
  \<^verbatim>\<open>delete(id)\<close>. A valid url is replaced by its identifier, anything else is used as it
  is. \<^verbatim>\<open>handle.delete()\<close> is a method of handles only.
\<close>

definition delete :: "codec \<Rightarrow> string \<Rightarrow> DocCollection \<Rightarrow> (error + unit) \<times> DocCollection" where
  "delete c id0 s =
     (case (if isValidAutomergeUrl c id0 then parseAutomergeUrl c id0 else Inr id0) of
        Inl e \<Rightarrow> (Inl e, s)
      | Inr d \<Rightarrow>
          (case getHandle d False s of
             (Inl e, s') \<Rightarrow> (Inl e, s')
           | (Inr (Inherited p), s') \<Rightarrow> (Inl TypeError, s')
           | (Inr (Handle r), s') \<Rightarrow>
               (Inr (),
                emit (DeleteDocument d)
                  ((DocHandle_delete r s')\<lparr>handleCache := (handleCache s')(d := None)\<rparr>))))"

text \<open>
  The callback that \<^verbatim>\<open>find\<close> passes to \<^verbatim>\<open>setTimeout\<close> reads the cache again when it runs and
  calls \<^verbatim>\<open>emit\<close> on what it finds.
\<close>

fun runTask :: "task \<Rightarrow> DocCollection \<Rightarrow> (error + unit) \<times> DocCollection" where
  "runTask (EmitUnavailable d) s =
     (case cacheGet s d of
        Some (Handle r) \<Rightarrow> (Inr (), emit (HandleUnavailable r (Handle r)) s)
      | _ \<Rightarrow> (Inl TypeError, s))"

definition runTimer :: "DocCollection \<Rightarrow> (error + unit) \<times> DocCollection" where
  "runTimer s =
     (case timers s of
        [] \<Rightarrow> (Inr (), s)
      | t # ts \<Rightarrow> runTask t (s\<lparr>timers := ts\<rparr>))"

text \<open>
  \<^verbatim>\<open>eventFired(emitter, event)\<close> of the test helpers subscribes once and resolves with the
  first matching event emitted after the subscription: \<open>s0\<close> is the state at the
  subscription, \<open>s\<close> a later state.
\<close>

definition eventFired :: "DocCollection \<Rightarrow> (event \<Rightarrow> bool) \<Rightarrow> DocCollection \<Rightarrow> event option" where
  "eventFired s0 p s = List.find p (drop (length (emitted s0)) (emitted s))"

subsection \<open>Sequences of operations\<close>

text \<open>
  What can happen to a registry: the three calls of its interface, a pending timer callback
  being run, and, from outside the registry, a lifecycle transition of a handle or a direct
  call of \<^verbatim>\<open>handle.delete()\<close>. An operation that throws leaves the state it had reached.

  Modelled from the spec: \<open>HandleTransition\<close>, the router or the storage bridge moving a
  handle along an edge of section 4.1; no edge leaves \<^verbatim>\<open>deleted\<close>.
\<close>

datatype op =
    Create AutomergeUrl
  | Find AutomergeUrl
  | Delete string
  | RunTimer
  | HandleTransition ref HandleState "Doc option"
  | HandleDeleteOp ref

fun step :: "codec \<Rightarrow> op \<Rightarrow> DocCollection \<Rightarrow> DocCollection" where
  "step c (Create generated) s = snd (create c generated s)"
| "step c (Find url) s = snd (find_url c url s)"
| "step c (Delete id0) s = snd (delete c id0 s)"
| "step c RunTimer s = snd (runTimer s)"
| "step c (HandleTransition r st v) s =
     (if r < length (heap s) \<and> transition (state (heap s ! r)) st
      then s\<lparr>heap := (heap s)[r := (heap s ! r)\<lparr>state := st, doc := v,
                                   visited := visited (heap s ! r) @ [st]\<rparr>]\<rparr>
      else s)"
| "step c (HandleDeleteOp r) s = (if r < length (heap s) then DocHandle_delete r s else s)"

definition run :: "codec \<Rightarrow> op list \<Rightarrow> DocCollection \<Rightarrow> DocCollection" where
  "run c ops s = fold (step c) ops s"

text \<open>
  A concrete codec on which the operations can be run on explicit inputs: the prefix is
  \<^verbatim>\<open>automerge:\<close> and the decoder accepts exactly the identifier texts \<^verbatim>\<open>doc1\<close> and
  \<^verbatim>\<open>doc2\<close>.
\<close>

definition test_codec :: codec where
  "test_codec =
     \<lparr>urlPrefix = ''automerge:'',
      documentIdToBinary =
        (\<lambda>d. if d = ''doc1'' then Some [1] else if d = ''doc2'' then Some [2] else None)\<rparr>"

subsection \<open>The invariant of the registry\<close>

text \<open>
  \<open>cache_ok\<close>: every cache entry refers to an allocated handle that carries the entry's
  key. \<open>orphans_deleted\<close>: a handle that is not the one cached under its identifier has
  been deleted.
\<close>

definition cache_ok :: "DocCollection \<Rightarrow> bool" where
  "cache_ok s \<longleftrightarrow>
     (\<forall>d r. handleCache s d = Some r \<longrightarrow> r < length (heap s) \<and> documentId (heap s ! r) = d)"

definition orphans_deleted :: "DocCollection \<Rightarrow> bool" where
  "orphans_deleted s \<longleftrightarrow>
     (\<forall>r < length (heap s).
        handleCache s (documentId (heap s ! r)) \<noteq> Some r \<longrightarrow> state (heap s ! r) = DELETED)"

definition registry_inv :: "DocCollection \<Rightarrow> bool" where
  "registry_inv s \<longleftrightarrow> cache_ok s \<and> orphans_deleted s"

section \<open>Basic facts\<close>

subsection \<open>The codec\<close>

lemma parse_Inr_iff:
  "parseAutomergeUrl c url = Inr d \<longleftrightarrow>
     isValidAutomergeUrl c url \<and> d = drop (length (urlPrefix c)) url"
  by (auto simp: parseAutomergeUrl_def isValidAutomergeUrl_def parts_def split: option.splits if_splits)

lemma parse_valid:
  "isValidAutomergeUrl c url \<Longrightarrow> parseAutomergeUrl c url = Inr (drop (length (urlPrefix c)) url)"
  by (simp add: parse_Inr_iff)

lemma stringify_parse: "parseAutomergeUrl c url = Inr d \<Longrightarrow> stringifyAutomergeUrl c d = url"
proof -
  assume "parseAutomergeUrl c url = Inr d"
  then have p: "take (length (urlPrefix c)) url = urlPrefix c"
    and d: "d = drop (length (urlPrefix c)) url"
    by (auto simp: parseAutomergeUrl_def parts_def split: if_splits option.splits)
  have "take (length (urlPrefix c)) url @ drop (length (urlPrefix c)) url = url"
    by (rule append_take_drop_id)
  with p d show ?thesis by (simp add: stringifyAutomergeUrl_def)
qed

subsection \<open>Cache reads and handle allocation\<close>

lemma cacheGet_Handle_iff: "cacheGet s d = Some (Handle r) \<longleftrightarrow> handleCache s d = Some r"
  by (simp add: cacheGet_def split: option.splits)

lemma cacheGet_None_iff:
  "cacheGet s d = None \<longleftrightarrow> handleCache s d = None \<and> d \<notin> set objectPrototypeProps"
  by (simp add: cacheGet_def split: option.splits)

lemma cacheGet_emit: "cacheGet (emit e s) d = cacheGet s d"
  by (simp add: cacheGet_def emit_def)

lemma getHandle_cached: "cacheGet s d = Some v \<Longrightarrow> getHandle d isNew s = (Inr v, s)"
  by (simp add: getHandle_def)

lemma getHandle_new:
  "cacheGet s d = None \<Longrightarrow> d \<noteq> [] \<Longrightarrow>
   getHandle d isNew s =
     (Inr (Handle (length (heap s))),
      s\<lparr>heap := heap s @ [DocHandle_new d isNew],
        handleCache := (handleCache s)(d \<mapsto> length (heap s))\<rparr>)"
  by (simp add: getHandle_def)

lemma getHandle_registers: "getHandle d isNew s = (Inr v, s') \<Longrightarrow> cacheGet s' d = Some v"
  by (auto simp: getHandle_def cacheGet_def split: option.splits if_splits)

lemma documentId_new: "documentId (DocHandle_new d isNew) = d"
  by (simp add: DocHandle_new_def)

lemma documentId_deleted: "documentId (deleted h) = documentId h"
  by (simp add: deleted_def)

lemma state_deleted: "state (deleted h) = DELETED"
  by (simp add: deleted_def)

subsection \<open>The result of delete\<close>

lemma delete_resolved:
  assumes "(if isValidAutomergeUrl c x then parseAutomergeUrl c x else Inr x) = Inr d"
    and "d \<noteq> []" and "d \<notin> set objectPrototypeProps"
  shows "delete c x s =
     (Inr (),
      (case handleCache s d of
         Some r \<Rightarrow>
           s\<lparr>heap := (heap s)[r := deleted (heap s ! r)],
             handleCache := (handleCache s)(d := None),
             emitted := emitted s @ [HandleDelete r, DeleteDocument d]\<rparr>
       | None \<Rightarrow>
           s\<lparr>heap := heap s @ [deleted (DocHandle_new d False)],
             handleCache := (handleCache s)(d := None),
             emitted := emitted s @ [HandleDelete (length (heap s)), DeleteDocument d]\<rparr>))"
proof (cases "handleCache s d")
  case None
  with assms have "cacheGet s d = None" by (simp add: cacheGet_None_iff)
  with assms(1,2) None show ?thesis
    by (simp add: delete_def getHandle_new DocHandle_delete_def emit_def)
next
  case (Some r)
  then have "cacheGet s d = Some (Handle r)" by (simp add: cacheGet_Handle_iff)
  with assms(1) Some show ?thesis
    by (simp add: delete_def getHandle_cached DocHandle_delete_def emit_def)
qed

lemma delete_no_url_error: "fst (delete c x s) \<noteq> Inl (InvalidUrlError u)"
  by (auto simp: delete_def getHandle_def parse_valid split: option.splits obj.splits)

subsection \<open>The share policy is never written\<close>

lemma sharePolicy_getHandle: "sharePolicy (snd (getHandle d b s)) = sharePolicy s"
  by (simp add: getHandle_def split: option.splits)

lemma sharePolicy_runTask: "sharePolicy (snd (runTask t s)) = sharePolicy s"
  by (cases t) (auto simp: emit_def split: option.splits obj.splits)

lemma sharePolicy_step: "sharePolicy (step c x s) = sharePolicy s"
proof (cases x)
  case (Create u)
  then show ?thesis
    by (auto simp: create_def emit_def getHandle_def split: sum.splits option.splits prod.splits)
next
  case (Find u)
  then show ?thesis
    by (auto simp: find_url_def emit_def setTimeout_def getHandle_def
             split: sum.splits option.splits prod.splits obj.splits)
next
  case (Delete i)
  then show ?thesis
    by (auto simp: delete_def emit_def DocHandle_delete_def getHandle_def
             split: sum.splits option.splits prod.splits obj.splits if_splits)
next
  case RunTimer
  then show ?thesis
    by (auto simp: runTimer_def sharePolicy_runTask split: list.splits)
next
  case (HandleTransition r st v)
  then show ?thesis by simp
next
  case (HandleDeleteOp r)
  then show ?thesis by (simp add: DocHandle_delete_def emit_def)
qed

lemma sharePolicy_run: "sharePolicy (run c ops s) = sharePolicy s"
  unfolding run_def by (induction ops arbitrary: s) (simp_all add: sharePolicy_step)

subsection \<open>Every operation preserves the invariant\<close>

lemma inv_new: "registry_inv DocCollection_new"
  by (simp add: registry_inv_def cache_ok_def orphans_deleted_def DocCollection_new_def)

lemma inv_emit: "registry_inv (emit e s) = registry_inv s"
  by (simp add: registry_inv_def cache_ok_def orphans_deleted_def emit_def)

lemma inv_setTimeout: "registry_inv (setTimeout t s) = registry_inv s"
  by (simp add: registry_inv_def cache_ok_def orphans_deleted_def setTimeout_def)

lemma inv_timers: "registry_inv (s\<lparr>timers := ts\<rparr>) = registry_inv s"
  by (simp add: registry_inv_def cache_ok_def orphans_deleted_def)

lemma inv_alloc:
  assumes "registry_inv s" and "handleCache s d = None"
  shows "registry_inv (s\<lparr>heap := heap s @ [DocHandle_new d isNew],
                        handleCache := (handleCache s)(d \<mapsto> length (heap s))\<rparr>)"
proof -
  from assms have c: "cache_ok s" and o: "orphans_deleted s" by (simp_all add: registry_inv_def)
  let ?s = "s\<lparr>heap := heap s @ [DocHandle_new d isNew],
              handleCache := (handleCache s)(d \<mapsto> length (heap s))\<rparr>"
  have "cache_ok ?s"
    unfolding cache_ok_def
  proof (intro allI impI)
    fix d' r
    assume a: "handleCache ?s d' = Some r"
    show "r < length (heap ?s) \<and> documentId (heap ?s ! r) = d'"
    proof (cases "d' = d")
      case True
      with a show ?thesis by (auto simp: documentId_new)
    next
      case False
      with a have "handleCache s d' = Some r" by simp
      with c have "r < length (heap s) \<and> documentId (heap s ! r) = d'"
        by (simp add: cache_ok_def)
      then show ?thesis by (simp add: nth_append)
    qed
  qed
  moreover have "orphans_deleted ?s"
    unfolding orphans_deleted_def
  proof (intro allI impI)
    fix r
    assume r: "r < length (heap ?s)"
      and n: "handleCache ?s (documentId (heap ?s ! r)) \<noteq> Some r"
    show "state (heap ?s ! r) = DELETED"
    proof (cases "r = length (heap s)")
      case True
      with n show ?thesis by (simp add: documentId_new)
    next
      case False
      with r have lt: "r < length (heap s)" by simp
      then have h: "heap ?s ! r = heap s ! r" by (simp add: nth_append)
      have "handleCache s (documentId (heap s ! r)) \<noteq> Some r"
      proof (cases "documentId (heap s ! r) = d")
        case True
        with assms(2) show ?thesis by simp
      next
        case False
        with n h show ?thesis by simp
      qed
      with o lt have "state (heap s ! r) = DELETED" by (simp add: orphans_deleted_def)
      with h show ?thesis by simp
    qed
  qed
  ultimately show ?thesis by (simp add: registry_inv_def)
qed

lemma inv_getHandle:
  assumes "registry_inv s"
  shows "registry_inv (snd (getHandle d isNew s))"
proof (cases "cacheGet s d")
  case (Some v)
  with assms show ?thesis by (simp add: getHandle_cached)
next
  case None
  show ?thesis
  proof (cases "d = []")
    case True
    with None assms show ?thesis by (simp add: getHandle_def)
  next
    case False
    from None have "handleCache s d = None" by (simp add: cacheGet_None_iff)
    with assms
    have "registry_inv (s\<lparr>heap := heap s @ [DocHandle_new d isNew],
                          handleCache := (handleCache s)(d \<mapsto> length (heap s))\<rparr>)"
      by (rule inv_alloc)
    with None False show ?thesis by (simp add: getHandle_new)
  qed
qed

lemma inv_heap_update:
  assumes "registry_inv s" and "documentId h = documentId (heap s ! r)"
    and "state (heap s ! r) = DELETED \<longrightarrow> state h = DELETED"
  shows "registry_inv (s\<lparr>heap := (heap s)[r := h]\<rparr>)"
proof -
  from assms(1) have c: "cache_ok s" and o: "orphans_deleted s" by (simp_all add: registry_inv_def)
  have same: "documentId ((heap s)[r := h] ! r') = documentId (heap s ! r')"
    if "r' < length (heap s)" for r'
    using that assms(2) by (cases "r' = r") simp_all
  have del: "state ((heap s)[r := h] ! r') = DELETED"
    if "r' < length (heap s)" and "state (heap s ! r') = DELETED" for r'
    using that assms(3) by (cases "r' = r") simp_all
  have "cache_ok (s\<lparr>heap := (heap s)[r := h]\<rparr>)"
    unfolding cache_ok_def
  proof (intro allI impI)
    fix d r'
    assume "handleCache (s\<lparr>heap := (heap s)[r := h]\<rparr>) d = Some r'"
    then have "handleCache s d = Some r'" by simp
    with c have "r' < length (heap s)" and "documentId (heap s ! r') = d"
      by (simp_all add: cache_ok_def)
    with same [of r']
    show "r' < length (heap (s\<lparr>heap := (heap s)[r := h]\<rparr>)) \<and>
          documentId (heap (s\<lparr>heap := (heap s)[r := h]\<rparr>) ! r') = d"
      by simp
  qed
  moreover have "orphans_deleted (s\<lparr>heap := (heap s)[r := h]\<rparr>)"
    unfolding orphans_deleted_def
  proof (intro allI impI)
    fix r'
    assume lt: "r' < length (heap (s\<lparr>heap := (heap s)[r := h]\<rparr>))"
      and n: "handleCache (s\<lparr>heap := (heap s)[r := h]\<rparr>)
                (documentId (heap (s\<lparr>heap := (heap s)[r := h]\<rparr>) ! r')) \<noteq> Some r'"
    from lt have lt': "r' < length (heap s)" by simp
    with n same [of r'] have "handleCache s (documentId (heap s ! r')) \<noteq> Some r'" by simp
    with o lt' have "state (heap s ! r') = DELETED" by (simp add: orphans_deleted_def)
    with del [of r'] lt'
    show "state (heap (s\<lparr>heap := (heap s)[r := h]\<rparr>) ! r') = DELETED" by simp
  qed
  ultimately show ?thesis by (simp add: registry_inv_def)
qed

lemma inv_getHandleD:
  "getHandle d isNew s = (res, s1) \<Longrightarrow> registry_inv s \<Longrightarrow> registry_inv s1"
  using inv_getHandle [of s d isNew] by simp

lemma inv_DocHandle_delete: "registry_inv s \<Longrightarrow> registry_inv (DocHandle_delete r s)"
  by (simp add: DocHandle_delete_def inv_emit inv_heap_update documentId_deleted state_deleted)

lemma inv_uncache:
  assumes "registry_inv s" and "handleCache s d = Some r" and "state (heap s ! r) = DELETED"
  shows "registry_inv (s\<lparr>handleCache := (handleCache s)(d := None)\<rparr>)"
proof -
  from assms(1) have c: "cache_ok s" and o: "orphans_deleted s" by (simp_all add: registry_inv_def)
  have "cache_ok (s\<lparr>handleCache := (handleCache s)(d := None)\<rparr>)"
    using c by (auto simp: cache_ok_def)
  moreover have "orphans_deleted (s\<lparr>handleCache := (handleCache s)(d := None)\<rparr>)"
    unfolding orphans_deleted_def
  proof (intro allI impI)
    fix r'
    assume r': "r' < length (heap (s\<lparr>handleCache := (handleCache s)(d := None)\<rparr>))"
      and n: "handleCache (s\<lparr>handleCache := (handleCache s)(d := None)\<rparr>)
                (documentId (heap (s\<lparr>handleCache := (handleCache s)(d := None)\<rparr>) ! r')) \<noteq> Some r'"
    show "state (heap (s\<lparr>handleCache := (handleCache s)(d := None)\<rparr>) ! r') = DELETED"
    proof (cases "r' = r")
      case True
      with assms(3) show ?thesis by simp
    next
      case False
      have "handleCache s (documentId (heap s ! r')) \<noteq> Some r'"
      proof (cases "documentId (heap s ! r') = d")
        case True
        with assms(2) False show ?thesis by simp
      next
        case False
        with n show ?thesis by simp
      qed
      with o r' show ?thesis by (simp add: orphans_deleted_def)
    qed
  qed
  ultimately show ?thesis by (simp add: registry_inv_def)
qed

lemma inv_delete: "registry_inv s \<Longrightarrow> registry_inv (snd (delete c x s))"
proof -
  assume i: "registry_inv s"
  have main: "registry_inv (emit (DeleteDocument d)
         ((DocHandle_delete r s1)\<lparr>handleCache := (handleCache s1)(d := None)\<rparr>))"
    if gh: "getHandle d False s = (Inr (Handle r), s1)" for d r s1
  proof -
    from gh i have i1: "registry_inv s1" by (rule inv_getHandleD)
    from gh have "cacheGet s1 d = Some (Handle r)" by (rule getHandle_registers)
    then have c1: "handleCache s1 d = Some r" by (simp add: cacheGet_Handle_iff)
    with i1 have lt: "r < length (heap s1)" by (simp add: registry_inv_def cache_ok_def)
    let ?s2 = "DocHandle_delete r s1"
    have i2: "registry_inv ?s2" using i1 by (rule inv_DocHandle_delete)
    have c2: "handleCache ?s2 d = Some r" using c1 by (simp add: DocHandle_delete_def emit_def)
    have d2: "state (heap ?s2 ! r) = DELETED"
      using lt by (simp add: DocHandle_delete_def emit_def state_deleted)
    have "registry_inv (?s2\<lparr>handleCache := (handleCache ?s2)(d := None)\<rparr>)"
      using i2 c2 d2 by (rule inv_uncache)
    moreover have "handleCache ?s2 = handleCache s1" by (simp add: DocHandle_delete_def emit_def)
    ultimately show ?thesis by (simp add: inv_emit)
  qed
  have body: "registry_inv (snd (case getHandle d False s of
             (Inl e, s') \<Rightarrow> (Inl e, s')
           | (Inr (Inherited p), s') \<Rightarrow> (Inl TypeError, s')
           | (Inr (Handle r), s') \<Rightarrow>
               (Inr (),
                emit (DeleteDocument d)
                  ((DocHandle_delete r s')\<lparr>handleCache := (handleCache s')(d := None)\<rparr>))))"
    for d
  proof -
    obtain res s1 where g: "getHandle d False s = (res, s1)" by (cases "getHandle d False s")
    from g i have i1: "registry_inv s1" by (rule inv_getHandleD)
    show ?thesis
    proof (cases res)
      case (Inl e)
      with g i1 show ?thesis by simp
    next
      case (Inr v)
      show ?thesis
      proof (cases v)
        case (Handle r)
        with g Inr main [of d r s1] show ?thesis by simp
      next
        case (Inherited p)
        with g Inr i1 show ?thesis by simp
      qed
    qed
  qed
  show ?thesis
  proof (cases "if isValidAutomergeUrl c x then parseAutomergeUrl c x else Inr x")
    case (Inl e)
    with i show ?thesis by (simp add: delete_def)
  next
    case (Inr d)
    with body [of d] show ?thesis by (simp add: delete_def)
  qed
qed

lemma inv_create: "registry_inv s \<Longrightarrow> registry_inv (snd (create c u s))"
proof -
  assume i: "registry_inv s"
  show ?thesis
  proof (cases "parseAutomergeUrl c u")
    case (Inl e)
    with i show ?thesis by (simp add: create_def)
  next
    case (Inr d)
    obtain res s1 where g: "getHandle d True s = (res, s1)" by (cases "getHandle d True s")
    from g i have "registry_inv s1" by (rule inv_getHandleD)
    with Inr g show ?thesis by (cases res) (simp_all add: create_def inv_emit)
  qed
qed

lemma inv_find: "registry_inv s \<Longrightarrow> registry_inv (snd (find_url c u s))"
proof -
  assume i: "registry_inv s"
  show ?thesis
  proof (cases "isValidAutomergeUrl c u")
    case False
    with i show ?thesis by (simp add: find_url_def)
  next
    case True
    then have p: "parseAutomergeUrl c u = Inr (drop (length (urlPrefix c)) u)"
      by (rule parse_valid)
    let ?d = "drop (length (urlPrefix c)) u"
    show ?thesis
    proof (cases "cacheGet s ?d")
      case None
      obtain res s1 where g: "getHandle ?d False s = (res, s1)"
        by (cases "getHandle ?d False s")
      from g i have "registry_inv s1" by (rule inv_getHandleD)
      with True p None g show ?thesis by (cases res) (simp_all add: find_url_def inv_emit)
    next
      case (Some v)
      with True p i show ?thesis by (cases v) (simp_all add: find_url_def inv_setTimeout)
    qed
  qed
qed

lemma inv_runTask: "registry_inv s \<Longrightarrow> registry_inv (snd (runTask t s))"
  by (cases t) (simp add: inv_emit split: option.splits obj.splits)

lemma inv_runTimer: "registry_inv s \<Longrightarrow> registry_inv (snd (runTimer s))"
  by (cases "timers s") (simp_all add: runTimer_def inv_runTask inv_timers)

lemma transition_DELETED: "transition DELETED st = False"
  by (cases st) simp_all

lemma inv_step: "registry_inv s \<Longrightarrow> registry_inv (step c x s)"
proof (cases x)
  case (HandleTransition r st v)
  assume i: "registry_inv s"
  show ?thesis
  proof (cases "r < length (heap s) \<and> transition (state (heap s ! r)) st")
    case True
    then have lt: "r < length (heap s)" and tr: "transition (state (heap s ! r)) st"
      by simp_all
    from tr have "state (heap s ! r) \<noteq> DELETED" by (auto simp: transition_DELETED)
    with i have "registry_inv (s\<lparr>heap := (heap s)[r := (heap s ! r)\<lparr>state := st, doc := v,
                                   visited := visited (heap s ! r) @ [st]\<rparr>]\<rparr>)"
      by (simp add: inv_heap_update)
    with lt tr HandleTransition show ?thesis by simp
  next
    case False
    then have "step c (HandleTransition r st v) s = s" by auto
    with i HandleTransition show ?thesis by simp
  qed
qed (simp_all add: inv_create inv_find inv_delete inv_runTimer inv_DocHandle_delete)

lemma inv_run: "registry_inv s \<Longrightarrow> registry_inv (run c ops s)"
  unfolding run_def
proof (induction ops arbitrary: s)
  case Nil
  then show ?case by simp
next
  case (Cons x xs)
  from Cons.prems have "registry_inv (step c x s)" by (rule inv_step)
  then have "registry_inv (fold (step c) xs (step c x s))" by (rule Cons.IH)
  then show ?case by simp
qed

lemma inv_unique:
  assumes "registry_inv s"
    and "r1 < length (heap s)" and "r2 < length (heap s)"
    and "documentId (heap s ! r1) = documentId (heap s ! r2)"
    and "state (heap s ! r1) \<noteq> DELETED" and "state (heap s ! r2) \<noteq> DELETED"
  shows "r1 = r2"
proof -
  from assms(1) have o: "\<forall>r < length (heap s).
        handleCache s (documentId (heap s ! r)) \<noteq> Some r \<longrightarrow> state (heap s ! r) = DELETED"
    by (simp add: registry_inv_def orphans_deleted_def)
  from o assms(2,5) have a: "handleCache s (documentId (heap s ! r1)) = Some r1" by blast
  from o assms(3,6) have b: "handleCache s (documentId (heap s ! r2)) = Some r2" by blast
  from a have "handleCache s (documentId (heap s ! r2)) = Some r1" by (simp only: assms(4))
  with b have "Some r1 = Some r2" by (simp only:)
  then show ?thesis by (simp only: option.inject)
qed

lemma inv_cached:
  assumes "registry_inv s" and "handleCache s d = Some r"
  shows "r < length (heap s) \<and> documentId (heap s ! r) = d"
  using assms by (simp add: registry_inv_def cache_ok_def)

subsection \<open>Runs on the concrete codec\<close>

lemmas tc_defs = test_codec_def isValidAutomergeUrl_def parseAutomergeUrl_def parts_def
  stringifyAutomergeUrl_def

lemmas op_defs = run_def find_url_def create_def delete_def getHandle_def cacheGet_def
  objectPrototypeProps_def emit_def setTimeout_def isUnavailable_def DocHandle_delete_def
  deleted_def DocHandle_new_def DocCollection_new_def runTimer_def

lemma tc_valid: "isValidAutomergeUrl test_codec ''automerge:doc1''"
  by (simp add: tc_defs)

lemma tc_parse: "parseAutomergeUrl test_codec ''automerge:doc1'' = Inr ''doc1''"
  by (simp add: tc_defs)

lemma tc_id_not_url: "\<not> isValidAutomergeUrl test_codec ''doc1''"
  by (simp add: tc_defs)

lemma tc_toString_not_url: "\<not> isValidAutomergeUrl test_codec ''toString''"
  by (simp add: tc_defs)

lemma doc1_not_inherited: "''doc1'' \<notin> set objectPrototypeProps"
  by (simp add: objectPrototypeProps_def)

lemma doc2_not_inherited: "''doc2'' \<notin> set objectPrototypeProps"
  by (simp add: objectPrototypeProps_def)

lemma new_uncached: "cacheGet DocCollection_new ''doc1'' = None"
  by (simp add: cacheGet_def DocCollection_new_def objectPrototypeProps_def)

lemma run_find:
  "run test_codec [Find ''automerge:doc1''] DocCollection_new =
     \<lparr>handleCache = [''doc1'' \<mapsto> 0], sharePolicy = (\<lambda>peer d. Resolved True),
      heap = [\<lparr>documentId = ''doc1'', state = LOADING, doc = None, visited = [IDLE, LOADING]\<rparr>],
      emitted = [Document (Handle 0)], timers = []\<rparr>"
  by (simp add: op_defs tc_defs)

lemma run_find_delete:
  "run test_codec [Find ''automerge:doc1'', Delete ''automerge:doc1''] DocCollection_new =
     \<lparr>handleCache = Map.empty, sharePolicy = (\<lambda>peer d. Resolved True),
      heap = [\<lparr>documentId = ''doc1'', state = DELETED, doc = None,
               visited = [IDLE, LOADING, DELETED]\<rparr>],
      emitted = [Document (Handle 0), HandleDelete 0, DeleteDocument ''doc1''], timers = []\<rparr>"
  by (simp add: op_defs tc_defs)

lemma run_find_delete_find:
  "run test_codec [Find ''automerge:doc1'', Delete ''automerge:doc1'', Find ''automerge:doc1'']
       DocCollection_new =
     \<lparr>handleCache = [''doc1'' \<mapsto> 1], sharePolicy = (\<lambda>peer d. Resolved True),
      heap = [\<lparr>documentId = ''doc1'', state = DELETED, doc = None,
               visited = [IDLE, LOADING, DELETED]\<rparr>,
              \<lparr>documentId = ''doc1'', state = LOADING, doc = None, visited = [IDLE, LOADING]\<rparr>],
      emitted = [Document (Handle 0), HandleDelete 0, DeleteDocument ''doc1'',
                 Document (Handle 1)], timers = []\<rparr>"
  by (simp add: op_defs tc_defs)

lemma run_find_unavailable:
  "run test_codec [Find ''automerge:doc1'', HandleTransition 0 UNAVAILABLE None] DocCollection_new =
     \<lparr>handleCache = [''doc1'' \<mapsto> 0], sharePolicy = (\<lambda>peer d. Resolved True),
      heap = [\<lparr>documentId = ''doc1'', state = UNAVAILABLE, doc = None,
               visited = [IDLE, LOADING, UNAVAILABLE]\<rparr>],
      emitted = [Document (Handle 0)], timers = []\<rparr>"
  by (simp add: op_defs tc_defs)

section \<open>The claims\<close>

text \<open>
  C1 (as amended). At any time at most one handle object that has not been deleted exists
  per identifier. After every sequence of \<^verbatim>\<open>create\<close>, \<^verbatim>\<open>find\<close> and \<^verbatim>\<open>delete\<close> calls (with
  timer callbacks and handle transitions in between) the cache maps each identifier to at
  most one handle, that handle is allocated and carries the identifier, every handle object
  that is not the one cached under its identifier has been deleted, and two handle objects
  with the same identifier that are both not deleted are the same object.
\<close>

theorem one_live_handle_per_id:
  assumes "s = run c ops DocCollection_new"
  shows "(\<forall>d r. handleCache s d = Some r \<longrightarrow>
            r < length (heap s) \<and> documentId (heap s ! r) = d) \<and>
         (\<forall>r. r < length (heap s) \<and> handleCache s (documentId (heap s ! r)) \<noteq> Some r \<longrightarrow>
            state (heap s ! r) = DELETED) \<and>
         (\<forall>r1 r2. r1 < length (heap s) \<and> r2 < length (heap s) \<and>
            documentId (heap s ! r1) = documentId (heap s ! r2) \<and>
            state (heap s ! r1) \<noteq> DELETED \<and> state (heap s ! r2) \<noteq> DELETED \<longrightarrow> r1 = r2)"
proof -
  have "registry_inv (run c ops DocCollection_new)" using inv_new by (rule inv_run)
  with assms have i: "registry_inv s" by simp
  show ?thesis
  proof (intro conjI allI impI)
    fix d r
    assume "handleCache s d = Some r"
    with i show "r < length (heap s)" by (simp add: inv_cached)
  next
    fix d r
    assume "handleCache s d = Some r"
    with i show "documentId (heap s ! r) = d" by (simp add: inv_cached)
  next
    fix r
    assume a: "r < length (heap s) \<and> handleCache s (documentId (heap s ! r)) \<noteq> Some r"
    from i have "\<forall>r < length (heap s).
        handleCache s (documentId (heap s ! r)) \<noteq> Some r \<longrightarrow> state (heap s ! r) = DELETED"
      by (simp add: registry_inv_def orphans_deleted_def)
    with a show "state (heap s ! r) = DELETED" by blast
  next
    fix r1 r2
    assume a: "r1 < length (heap s) \<and> r2 < length (heap s) \<and>
            documentId (heap s ! r1) = documentId (heap s ! r2) \<and>
            state (heap s ! r1) \<noteq> DELETED \<and> state (heap s ! r2) \<noteq> DELETED"
    from a have 1: "r1 < length (heap s)" and 2: "r2 < length (heap s)"
      and 3: "documentId (heap s ! r1) = documentId (heap s ! r2)"
      and 4: "state (heap s ! r1) \<noteq> DELETED" and 5: "state (heap s ! r2) \<noteq> DELETED"
      by simp_all
    from i 1 2 3 4 5 show "r1 = r2" by (rule inv_unique)
  qed
qed

text \<open>
  The theorem on the run \<^verbatim>\<open>find; delete; find\<close> of one url: the second handle is the cached
  one, and the first one, no longer cached, is deleted.
\<close>

theorem one_live_handle_per_id_witness:
  "handleCache (run test_codec [Find ''automerge:doc1'', Delete ''automerge:doc1'',
       Find ''automerge:doc1''] DocCollection_new) ''doc1'' = Some 1 \<and>
   1 < length (heap (run test_codec [Find ''automerge:doc1'', Delete ''automerge:doc1'',
       Find ''automerge:doc1''] DocCollection_new)) \<and>
   documentId (heap (run test_codec [Find ''automerge:doc1'', Delete ''automerge:doc1'',
       Find ''automerge:doc1''] DocCollection_new) ! 1) = ''doc1'' \<and>
   state (heap (run test_codec [Find ''automerge:doc1'', Delete ''automerge:doc1'',
       Find ''automerge:doc1''] DocCollection_new) ! 0) = DELETED"
proof -
  define s where "s = run test_codec [Find ''automerge:doc1'', Delete ''automerge:doc1'',
       Find ''automerge:doc1''] DocCollection_new"
  note t = one_live_handle_per_id [OF s_def]
  have c: "handleCache s ''doc1'' = Some 1" by (simp add: s_def run_find_delete_find)
  have l: "0 < length (heap s)" by (simp add: s_def run_find_delete_find)
  have e: "documentId (heap s ! 0) = ''doc1''" by (simp add: s_def run_find_delete_find)
  have n: "state (heap s ! 1) \<noteq> DELETED" by (simp add: s_def run_find_delete_find)
  from c have k: "1 < length (heap s) \<and> documentId (heap s ! 1) = ''doc1''"
    by (rule t [THEN conjunct1, rule_format])
  from l e c have "0 < length (heap s) \<and> handleCache s (documentId (heap s ! 0)) \<noteq> Some 0"
    by simp
  then have d: "state (heap s ! 0) = DELETED"
    by (rule t [THEN conjunct2, THEN conjunct1, rule_format])
  have "(1::nat) = 1"
  proof (rule t [THEN conjunct2, THEN conjunct2, rule_format])
    from k n show "1 < length (heap s) \<and> 1 < length (heap s) \<and>
      documentId (heap s ! 1) = documentId (heap s ! 1) \<and>
      state (heap s ! 1) \<noteq> DELETED \<and> state (heap s ! 1) \<noteq> DELETED" by simp
  qed
  with c k d show ?thesis unfolding s_def by simp
qed

text \<open>
  C1 as stated fails: \<^verbatim>\<open>delete\<close> removes the cache entry, so a \<^verbatim>\<open>find\<close> after a \<^verbatim>\<open>delete\<close> of
  the same identifier constructs a second handle object for it. The first \<^verbatim>\<open>find\<close> returns
  object 0, the \<^verbatim>\<open>find\<close> after the \<^verbatim>\<open>delete\<close> returns object 1, and both carry \<^verbatim>\<open>doc1\<close>.
\<close>

theorem find_after_delete_counterexample:
  "fst (find_url test_codec ''automerge:doc1'' DocCollection_new) = Inr (Handle 0) \<and>
   fst (find_url test_codec ''automerge:doc1''
         (run test_codec [Find ''automerge:doc1'', Delete ''automerge:doc1''] DocCollection_new)) =
     Inr (Handle 1) \<and>
   documentId (heap (run test_codec [Find ''automerge:doc1'', Delete ''automerge:doc1'',
       Find ''automerge:doc1''] DocCollection_new) ! 0) = ''doc1'' \<and>
   documentId (heap (run test_codec [Find ''automerge:doc1'', Delete ''automerge:doc1'',
       Find ''automerge:doc1''] DocCollection_new) ! 1) = ''doc1''"
  by (simp add: run_find_delete run_find_delete_find)
     (simp add: op_defs tc_defs)

text \<open>
  C2 (as amended). For a valid url (whose identifier is not empty and not the name of a
  property inherited from \<^verbatim>\<open>Object.prototype\<close>), two calls of \<^verbatim>\<open>find\<close> in a row return the
  same handle object. The second call emits no event and changes neither the cache nor the
  store of handles. When the handle is \<^verbatim>\<open>unavailable\<close> at the second call, that call
  schedules one more \<^verbatim>\<open>unavailable\<close> re-announcement; otherwise it leaves the registry as
  it was.
\<close>

theorem find_twice:
  assumes "isValidAutomergeUrl c url" and "parseAutomergeUrl c url = Inr d"
    and "d \<noteq> []" and "d \<notin> set objectPrototypeProps"
  shows "\<exists>r s1 s2.
     find_url c url s = (Inr (Handle r), s1) \<and>
     find_url c url s1 = (Inr (Handle r), s2) \<and>
     s2 = (if isUnavailable s1 r then s1\<lparr>timers := timers s1 @ [EmitUnavailable d]\<rparr> else s1) \<and>
     emitted s2 = emitted s1 \<and> handleCache s2 = handleCache s1 \<and> heap s2 = heap s1"
proof (cases "handleCache s d")
  case None
  with assms have n: "cacheGet s d = None" by (simp add: cacheGet_None_iff)
  let ?r = "length (heap s)"
  let ?s1 = "s\<lparr>heap := heap s @ [DocHandle_new d False],
               handleCache := (handleCache s)(d \<mapsto> ?r),
               emitted := emitted s @ [Document (Handle ?r)]\<rparr>"
  have u: "\<not> isUnavailable ?s1 ?r" by (simp add: isUnavailable_def DocHandle_new_def)
  have f1: "find_url c url s = (Inr (Handle ?r), ?s1)"
    using assms n by (simp add: find_url_def getHandle_new emit_def)
  have f2: "find_url c url ?s1 = (Inr (Handle ?r), ?s1)"
    using assms by (simp add: find_url_def cacheGet_def isUnavailable_def DocHandle_new_def)
  from u have "?s1 =
      (if isUnavailable ?s1 ?r then ?s1\<lparr>timers := timers ?s1 @ [EmitUnavailable d]\<rparr> else ?s1)"
    by (simp only: if_False)
  with f1 f2 show ?thesis by blast
next
  case (Some r)
  show ?thesis
  proof (cases "isUnavailable s r")
    case True
    let ?s1 = "s\<lparr>timers := timers s @ [EmitUnavailable d]\<rparr>"
    let ?s2 = "?s1\<lparr>timers := timers ?s1 @ [EmitUnavailable d]\<rparr>"
    have u: "isUnavailable ?s1 r" using True by (simp add: isUnavailable_def)
    have f1: "find_url c url s = (Inr (Handle r), ?s1)"
      using assms Some True by (simp add: find_url_def cacheGet_def setTimeout_def)
    have f2: "find_url c url ?s1 = (Inr (Handle r), ?s2)"
      using assms Some u by (simp add: find_url_def cacheGet_def setTimeout_def)
    from u have e: "?s2 =
        (if isUnavailable ?s1 r then ?s1\<lparr>timers := timers ?s1 @ [EmitUnavailable d]\<rparr> else ?s1)"
      by (simp only: if_True)
    have "emitted ?s2 = emitted ?s1 \<and> handleCache ?s2 = handleCache ?s1 \<and> heap ?s2 = heap ?s1"
      by simp
    with f1 f2 e show ?thesis by blast
  next
    case False
    have f1: "find_url c url s = (Inr (Handle r), s)"
      using assms Some False by (simp add: find_url_def cacheGet_def)
    from False have "s =
        (if isUnavailable s r then s\<lparr>timers := timers s @ [EmitUnavailable d]\<rparr> else s)"
      by (simp only: if_False)
    with f1 show ?thesis by blast
  qed
qed

text \<open>
  The theorem on a new registry, where the second call changes nothing, and on a registry
  whose handle for the url has become \<^verbatim>\<open>unavailable\<close>, where each of the two calls schedules
  a callback.
\<close>

theorem find_twice_witness:
  "fst (find_url test_codec ''automerge:doc1'' DocCollection_new) = Inr (Handle 0) \<and>
   find_url test_codec ''automerge:doc1''
       (snd (find_url test_codec ''automerge:doc1'' DocCollection_new)) =
     (Inr (Handle 0), snd (find_url test_codec ''automerge:doc1'' DocCollection_new)) \<and>
   fst (find_url test_codec ''automerge:doc1''
         (snd (find_url test_codec ''automerge:doc1''
            (run test_codec [Find ''automerge:doc1'', HandleTransition 0 UNAVAILABLE None]
               DocCollection_new)))) = Inr (Handle 0) \<and>
   timers (snd (find_url test_codec ''automerge:doc1''
         (snd (find_url test_codec ''automerge:doc1''
            (run test_codec [Find ''automerge:doc1'', HandleTransition 0 UNAVAILABLE None]
               DocCollection_new))))) =
     [EmitUnavailable ''doc1'', EmitUnavailable ''doc1'']"
proof -
  have e: "''doc1'' \<noteq> []" by simp
  note t = find_twice [OF tc_valid tc_parse e doc1_not_inherited]
  define l where "l = run test_codec [Find ''automerge:doc1''] DocCollection_new"
  define u where "u = run test_codec [Find ''automerge:doc1'',
      HandleTransition 0 UNAVAILABLE None] DocCollection_new"
  define u1 where "u1 = u\<lparr>timers := [EmitUnavailable ''doc1'']\<rparr>"
  have evl: "find_url test_codec ''automerge:doc1'' DocCollection_new = (Inr (Handle 0), l)"
    unfolding l_def by (simp add: run_find) (simp add: op_defs tc_defs)
  have evu: "find_url test_codec ''automerge:doc1'' u = (Inr (Handle 0), u1)"
    unfolding u1_def u_def by (simp add: run_find_unavailable) (simp add: op_defs tc_defs)
  have nl: "\<not> isUnavailable l 0" unfolding l_def by (simp add: run_find isUnavailable_def)
  have yu: "isUnavailable u1 0"
    unfolding u1_def u_def by (simp add: run_find_unavailable isUnavailable_def)
  have tu: "timers u1 = [EmitUnavailable ''doc1'']" unfolding u1_def by simp
  from t [of DocCollection_new] obtain r s1 s2 where
    f1: "find_url test_codec ''automerge:doc1'' DocCollection_new = (Inr (Handle r), s1)"
    and f2: "find_url test_codec ''automerge:doc1'' s1 = (Inr (Handle r), s2)"
    and eq: "s2 = (if isUnavailable s1 r
                   then s1\<lparr>timers := timers s1 @ [EmitUnavailable ''doc1'']\<rparr> else s1)"
    by blast
  from f1 evl have "r = 0" and "s1 = l" by simp_all
  with f2 eq nl have a: "find_url test_codec ''automerge:doc1'' l = (Inr (Handle 0), l)"
    by simp
  from t [of u] obtain r' s1' s2' where
    g1: "find_url test_codec ''automerge:doc1'' u = (Inr (Handle r'), s1')"
    and g2: "find_url test_codec ''automerge:doc1'' s1' = (Inr (Handle r'), s2')"
    and eq': "s2' = (if isUnavailable s1' r'
                   then s1'\<lparr>timers := timers s1' @ [EmitUnavailable ''doc1'']\<rparr> else s1')"
    by blast
  from g1 evu have "r' = 0" and "s1' = u1" by simp_all
  with g2 eq' yu tu have b: "find_url test_codec ''automerge:doc1'' u1 =
      (Inr (Handle 0), u1\<lparr>timers := [EmitUnavailable ''doc1'', EmitUnavailable ''doc1'']\<rparr>)"
    by simp
  from evl a evu b show ?thesis unfolding u_def [symmetric] by simp
qed

text \<open>
  C2 as stated fails on a handle that is \<^verbatim>\<open>unavailable\<close>: the second \<^verbatim>\<open>find\<close> schedules a
  callback of its own, so two \<^verbatim>\<open>unavailable\<close> events are emitted where one call gives one.
\<close>

theorem find_twice_counterexample:
  "timers (run test_codec [Find ''automerge:doc1'', HandleTransition 0 UNAVAILABLE None,
       Find ''automerge:doc1''] DocCollection_new) = [EmitUnavailable ''doc1''] \<and>
   timers (run test_codec [Find ''automerge:doc1'', HandleTransition 0 UNAVAILABLE None,
       Find ''automerge:doc1'', Find ''automerge:doc1''] DocCollection_new) =
     [EmitUnavailable ''doc1'', EmitUnavailable ''doc1''] \<and>
   emitted (run test_codec [Find ''automerge:doc1'', HandleTransition 0 UNAVAILABLE None,
       Find ''automerge:doc1'', RunTimer] DocCollection_new) =
     [Document (Handle 0), HandleUnavailable 0 (Handle 0)] \<and>
   emitted (run test_codec [Find ''automerge:doc1'', HandleTransition 0 UNAVAILABLE None,
       Find ''automerge:doc1'', Find ''automerge:doc1'', RunTimer, RunTimer]
       DocCollection_new) =
     [Document (Handle 0), HandleUnavailable 0 (Handle 0), HandleUnavailable 0 (Handle 0)]"
  by (simp add: op_defs tc_defs)

text \<open>
  C3. When the url fails the codec's validation, \<^verbatim>\<open>find\<close> fails with the invalid-url error
  and returns the registry as it was: the cache, the store of handles, the emitted events
  and the timers are unchanged.
\<close>

theorem find_invalid_url:
  "\<not> isValidAutomergeUrl c url \<Longrightarrow> find_url c url s = (Inl (InvalidUrlError url), s)"
  by (simp add: find_url_def)

theorem find_invalid_url_witness:
  "\<not> isValidAutomergeUrl test_codec ''automerge:doc9'' \<and>
   find_url test_codec ''automerge:doc9'' DocCollection_new =
     (Inl (InvalidUrlError ''automerge:doc9''), DocCollection_new)"
  using find_invalid_url [of test_codec "''automerge:doc9''" DocCollection_new] by (simp add: tc_defs)




text \<open>
  C5. \<^verbatim>\<open>delete\<close> resolves its argument to an identifier \<open>d\<close>: the identifier of a valid
  url, the argument itself otherwise. For \<open>d\<close> not empty and not the name of a property
  inherited from \<^verbatim>\<open>Object.prototype\<close>, \<^verbatim>\<open>handle.delete()\<close> is called on the handle cached under
  \<open>d\<close>, or on a handle constructed for \<open>d\<close> on the spot when none is cached; the handle
  emits its deletion notification, nothing is cached under \<open>d\<close> afterwards, and
  \<^verbatim>\<open>delete-document\<close> is emitted carrying \<open>d\<close>.
\<close>

theorem delete_resolves:
  assumes "isValidAutomergeUrl c x \<longrightarrow> parseAutomergeUrl c x = Inr d"
    and "\<not> isValidAutomergeUrl c x \<longrightarrow> d = x"
    and "d \<noteq> []" and "d \<notin> set objectPrototypeProps"
  shows "delete c x s =
     (Inr (),
      (case handleCache s d of
         Some r \<Rightarrow>
           s\<lparr>heap := (heap s)[r := deleted (heap s ! r)],
             handleCache := (handleCache s)(d := None),
             emitted := emitted s @ [HandleDelete r, DeleteDocument d]\<rparr>
       | None \<Rightarrow>
           s\<lparr>heap := heap s @ [deleted (DocHandle_new d False)],
             handleCache := (handleCache s)(d := None),
             emitted := emitted s @ [HandleDelete (length (heap s)), DeleteDocument d]\<rparr>)) \<and>
     state (deleted h) = DELETED \<and> documentId (deleted h) = documentId h"
proof -
  from assms(1,2) have "(if isValidAutomergeUrl c x then parseAutomergeUrl c x else Inr x) = Inr d"
    by simp
  then show ?thesis using assms(3,4)
    by (simp add: delete_resolved state_deleted documentId_deleted)
qed

theorem delete_resolves_witness:
  "delete test_codec ''automerge:doc1''
      (run test_codec [Find ''automerge:doc1''] DocCollection_new) =
     (Inr (),
      \<lparr>handleCache = Map.empty, sharePolicy = (\<lambda>peer d. Resolved True),
       heap = [\<lparr>documentId = ''doc1'', state = DELETED, doc = None,
                visited = [IDLE, LOADING, DELETED]\<rparr>],
       emitted = [Document (Handle 0), HandleDelete 0, DeleteDocument ''doc1''],
       timers = []\<rparr>) \<and>
   delete test_codec ''doc2'' DocCollection_new =
     (Inr (),
      \<lparr>handleCache = Map.empty, sharePolicy = (\<lambda>peer d. Resolved True),
       heap = [\<lparr>documentId = ''doc2'', state = DELETED, doc = None,
                visited = [IDLE, LOADING, DELETED]\<rparr>],
       emitted = [HandleDelete 0, DeleteDocument ''doc2''], timers = []\<rparr>)"
proof -
  have v: "isValidAutomergeUrl test_codec ''automerge:doc1'' \<longrightarrow>
      parseAutomergeUrl test_codec ''automerge:doc1'' = Inr ''doc1''"
    by (simp add: tc_parse)
  have n: "\<not> isValidAutomergeUrl test_codec ''automerge:doc1'' \<longrightarrow> ''doc1'' = ''automerge:doc1''"
    by (simp add: tc_valid)
  have v2: "isValidAutomergeUrl test_codec ''doc2'' \<longrightarrow>
      parseAutomergeUrl test_codec ''doc2'' = Inr ''doc2''"
    by (simp add: tc_defs)
  have n2: "\<not> isValidAutomergeUrl test_codec ''doc2'' \<longrightarrow> ''doc2'' = ''doc2''"
    by simp
  have e: "''doc1'' \<noteq> []" "''doc2'' \<noteq> []" by simp_all
  note a = delete_resolves [OF v n e(1) doc1_not_inherited,
      of "run test_codec [Find ''automerge:doc1''] DocCollection_new", THEN conjunct1]
  note b = delete_resolves [OF v2 n2 e(2) doc2_not_inherited, of DocCollection_new,
      THEN conjunct1]
  have "delete test_codec ''automerge:doc1''
      (run test_codec [Find ''automerge:doc1''] DocCollection_new) =
     (Inr (),
      \<lparr>handleCache = Map.empty, sharePolicy = (\<lambda>peer d. Resolved True),
       heap = [\<lparr>documentId = ''doc1'', state = DELETED, doc = None,
                visited = [IDLE, LOADING, DELETED]\<rparr>],
       emitted = [Document (Handle 0), HandleDelete 0, DeleteDocument ''doc1''],
       timers = []\<rparr>)"
    using a by (simp add: run_find deleted_def)
  moreover have "delete test_codec ''doc2'' DocCollection_new =
     (Inr (),
      \<lparr>handleCache = Map.empty, sharePolicy = (\<lambda>peer d. Resolved True),
       heap = [\<lparr>documentId = ''doc2'', state = DELETED, doc = None,
                visited = [IDLE, LOADING, DELETED]\<rparr>],
       emitted = [HandleDelete 0, DeleteDocument ''doc2''], timers = []\<rparr>)"
    using b by (simp add: DocCollection_new_def deleted_def DocHandle_new_def)
  ultimately show ?thesis by (rule conjI)
qed

text \<open>
  C6. For a valid url whose identifier is cached, \<^verbatim>\<open>find\<close> returns the cached handle. When
  that handle is \<^verbatim>\<open>unavailable\<close>, the call emits nothing itself and schedules exactly one
  callback; run after the call has returned, the callback emits exactly one
  \<^verbatim>\<open>unavailable\<close> event on the handle, carrying the handle, and an observer subscribed
  right after the call receives it. When the handle is not \<^verbatim>\<open>unavailable\<close>, the call leaves
  the registry as it was.
\<close>

theorem find_cached:
  assumes "isValidAutomergeUrl c url" and "parseAutomergeUrl c url = Inr d"
    and "handleCache s d = Some r" and "r < length (heap s)"
  shows "fst (find_url c url s) = Inr (Handle r) \<and>
     (state (heap s ! r) = UNAVAILABLE \<longrightarrow>
        snd (find_url c url s) = s\<lparr>timers := timers s @ [EmitUnavailable d]\<rparr> \<and>
        runTask (EmitUnavailable d) (snd (find_url c url s)) =
          (Inr (), (snd (find_url c url s))
                     \<lparr>emitted := emitted s @ [HandleUnavailable r (Handle r)]\<rparr>) \<and>
        eventFired (snd (find_url c url s)) (\<lambda>e. e = HandleUnavailable r (Handle r))
            (snd (runTask (EmitUnavailable d) (snd (find_url c url s)))) =
          Some (HandleUnavailable r (Handle r)) \<and>
        drop (length (emitted (snd (find_url c url s))))
            (emitted (snd (runTask (EmitUnavailable d) (snd (find_url c url s))))) =
          [HandleUnavailable r (Handle r)]) \<and>
     (state (heap s ! r) \<noteq> UNAVAILABLE \<longrightarrow> snd (find_url c url s) = s)"
  using assms
  by (simp add: find_url_def cacheGet_def isUnavailable_def setTimeout_def emit_def
        eventFired_def)

theorem find_cached_witness:
  "find_url test_codec ''automerge:doc1''
       (run test_codec [Find ''automerge:doc1'', HandleTransition 0 UNAVAILABLE None]
          DocCollection_new) =
     (Inr (Handle 0),
      \<lparr>handleCache = [''doc1'' \<mapsto> 0], sharePolicy = (\<lambda>peer d. Resolved True),
       heap = [\<lparr>documentId = ''doc1'', state = UNAVAILABLE, doc = None,
                visited = [IDLE, LOADING, UNAVAILABLE]\<rparr>],
       emitted = [Document (Handle 0)], timers = [EmitUnavailable ''doc1'']\<rparr>) \<and>
   runTimer
      \<lparr>handleCache = [''doc1'' \<mapsto> 0], sharePolicy = (\<lambda>peer d. Resolved True),
       heap = [\<lparr>documentId = ''doc1'', state = UNAVAILABLE, doc = None,
                visited = [IDLE, LOADING, UNAVAILABLE]\<rparr>],
       emitted = [Document (Handle 0)], timers = [EmitUnavailable ''doc1'']\<rparr> =
     (Inr (),
      \<lparr>handleCache = [''doc1'' \<mapsto> 0], sharePolicy = (\<lambda>peer d. Resolved True),
       heap = [\<lparr>documentId = ''doc1'', state = UNAVAILABLE, doc = None,
                visited = [IDLE, LOADING, UNAVAILABLE]\<rparr>],
       emitted = [Document (Handle 0), HandleUnavailable 0 (Handle 0)], timers = []\<rparr>) \<and>
   find_url test_codec ''automerge:doc1''
       (run test_codec [Find ''automerge:doc1''] DocCollection_new) =
     (Inr (Handle 0), run test_codec [Find ''automerge:doc1''] DocCollection_new)"
proof -
  let ?u = "run test_codec [Find ''automerge:doc1'', HandleTransition 0 UNAVAILABLE None]
          DocCollection_new"
  let ?l = "run test_codec [Find ''automerge:doc1''] DocCollection_new"
  have cu: "handleCache ?u ''doc1'' = Some 0" and lu: "0 < length (heap ?u)"
    and su: "state (heap ?u ! 0) = UNAVAILABLE"
    by (simp_all add: run_find_unavailable)
  have cl: "handleCache ?l ''doc1'' = Some 0" and ll: "0 < length (heap ?l)"
    and sl: "state (heap ?l ! 0) \<noteq> UNAVAILABLE"
    by (simp_all add: run_find)
  note a = find_cached [OF tc_valid tc_parse cu lu]
  note b = find_cached [OF tc_valid tc_parse cl ll]
  from a su have a1: "fst (find_url test_codec ''automerge:doc1'' ?u) = Inr (Handle 0)"
    and a2: "snd (find_url test_codec ''automerge:doc1'' ?u) =
        ?u\<lparr>timers := timers ?u @ [EmitUnavailable ''doc1'']\<rparr>"
    by simp_all
  from b sl have b1: "fst (find_url test_codec ''automerge:doc1'' ?l) = Inr (Handle 0)"
    and b2: "snd (find_url test_codec ''automerge:doc1'' ?l) = ?l"
    by simp_all
  from a1 a2 have "find_url test_codec ''automerge:doc1'' ?u =
      (Inr (Handle 0), ?u\<lparr>timers := timers ?u @ [EmitUnavailable ''doc1'']\<rparr>)"
    by (simp add: prod_eq_iff)
  then have 1: "find_url test_codec ''automerge:doc1'' ?u =
     (Inr (Handle 0),
      \<lparr>handleCache = [''doc1'' \<mapsto> 0], sharePolicy = (\<lambda>peer d. Resolved True),
       heap = [\<lparr>documentId = ''doc1'', state = UNAVAILABLE, doc = None,
                visited = [IDLE, LOADING, UNAVAILABLE]\<rparr>],
       emitted = [Document (Handle 0)], timers = [EmitUnavailable ''doc1'']\<rparr>)"
    by (simp add: run_find_unavailable)
  have 2: "runTimer
      \<lparr>handleCache = [''doc1'' \<mapsto> 0], sharePolicy = (\<lambda>peer d. Resolved True),
       heap = [\<lparr>documentId = ''doc1'', state = UNAVAILABLE, doc = None,
                visited = [IDLE, LOADING, UNAVAILABLE]\<rparr>],
       emitted = [Document (Handle 0)], timers = [EmitUnavailable ''doc1'']\<rparr> =
     (Inr (),
      \<lparr>handleCache = [''doc1'' \<mapsto> 0], sharePolicy = (\<lambda>peer d. Resolved True),
       heap = [\<lparr>documentId = ''doc1'', state = UNAVAILABLE, doc = None,
                visited = [IDLE, LOADING, UNAVAILABLE]\<rparr>],
       emitted = [Document (Handle 0), HandleUnavailable 0 (Handle 0)], timers = []\<rparr>)"
    by (simp add: runTimer_def cacheGet_def emit_def)
  from b1 b2 have 3: "find_url test_codec ''automerge:doc1'' ?l = (Inr (Handle 0), ?l)"
    by (simp add: prod_eq_iff)
  from 1 2 3 show ?thesis by blast
qed

text \<open>
  C7. For a valid url whose identifier \<open>d\<close> is not cached (and not empty), \<^verbatim>\<open>find\<close>
  constructs a new handle object with \<^verbatim>\<open>isNew = false\<close>, which is \<^verbatim>\<open>loading\<close>, caches it
  under \<open>d\<close>, emits \<^verbatim>\<open>document\<close> carrying it and returns it.
\<close>

theorem find_uncached:
  assumes "isValidAutomergeUrl c url" and "parseAutomergeUrl c url = Inr d"
    and "cacheGet s d = None" and "d \<noteq> []"
  shows "find_url c url s =
      (Inr (Handle (length (heap s))),
       s\<lparr>heap := heap s @ [DocHandle_new d False],
         handleCache := (handleCache s)(d \<mapsto> length (heap s)),
         emitted := emitted s @ [Document (Handle (length (heap s)))]\<rparr>) \<and>
     documentId (DocHandle_new d False) = d \<and>
     state (DocHandle_new d False) = LOADING \<and>
     visited (DocHandle_new d False) = [IDLE, LOADING]"
  using assms by (simp add: find_url_def getHandle_new emit_def DocHandle_new_def)

theorem find_uncached_witness:
  "find_url test_codec ''automerge:doc1'' DocCollection_new =
     (Inr (Handle 0),
      \<lparr>handleCache = [''doc1'' \<mapsto> 0], sharePolicy = (\<lambda>peer d. Resolved True),
       heap = [\<lparr>documentId = ''doc1'', state = LOADING, doc = None,
                visited = [IDLE, LOADING]\<rparr>],
       emitted = [Document (Handle 0)], timers = []\<rparr>)"
proof -
  have e: "''doc1'' \<noteq> []" by simp
  from find_uncached [OF tc_valid tc_parse new_uncached e, THEN conjunct1]
  show ?thesis by (simp add: DocCollection_new_def DocHandle_new_def)
qed

text \<open>
  C8. When \<^verbatim>\<open>create\<close> returns, the identifier \<open>d\<close> it produced (under which the returned
  value is cached) round-trips through the codec: \<^verbatim>\<open>stringify\<close> of \<open>d\<close> is a valid url, and
  parsing it yields \<open>d\<close> again.
\<close>

theorem create_id_roundtrip:
  assumes "create c generated s = (Inr v, s')"
  shows "\<exists>d. parseAutomergeUrl c generated = Inr d \<and> cacheGet s' d = Some v \<and>
     isValidAutomergeUrl c (stringifyAutomergeUrl c d) \<and>
     parseAutomergeUrl c (stringifyAutomergeUrl c d) = Inr d"
proof -
  from assms obtain d where p: "parseAutomergeUrl c generated = Inr d"
    by (auto simp: create_def split: sum.splits)
  from assms p obtain s1 where g: "getHandle d True s = (Inr v, s1)" and s': "s' = emit (Document v) s1"
    by (auto simp: create_def split: sum.splits prod.splits)
  from g have "cacheGet s1 d = Some v" by (rule getHandle_registers)
  with s' have c: "cacheGet s' d = Some v" by (simp add: cacheGet_emit)
  from p have u: "stringifyAutomergeUrl c d = generated" by (rule stringify_parse)
  from p have "isValidAutomergeUrl c generated" by (simp add: parse_Inr_iff)
  with p c u show ?thesis by simp
qed

theorem create_id_roundtrip_witness:
  "create test_codec ''automerge:doc1'' DocCollection_new =
     (Inr (Handle 0), run test_codec [Create ''automerge:doc1''] DocCollection_new) \<and>
   stringifyAutomergeUrl test_codec ''doc1'' = ''automerge:doc1'' \<and>
   isValidAutomergeUrl test_codec (stringifyAutomergeUrl test_codec ''doc1'') \<and>
   parseAutomergeUrl test_codec (stringifyAutomergeUrl test_codec ''doc1'') = Inr ''doc1''"
proof -
  have c: "create test_codec ''automerge:doc1'' DocCollection_new =
     (Inr (Handle 0), run test_codec [Create ''automerge:doc1''] DocCollection_new)"
    by (simp add: op_defs tc_defs)
  from create_id_roundtrip [OF c]
  obtain d where p: "parseAutomergeUrl test_codec ''automerge:doc1'' = Inr d"
    and v: "isValidAutomergeUrl test_codec (stringifyAutomergeUrl test_codec d)"
    and q: "parseAutomergeUrl test_codec (stringifyAutomergeUrl test_codec d) = Inr d"
    by blast
  from p have d: "d = ''doc1''" by (simp add: tc_parse)
  have s: "stringifyAutomergeUrl test_codec ''doc1'' = ''automerge:doc1''"
    by (simp add: tc_defs)
  from c s v q d show ?thesis by blast
qed

text \<open>
  C9 (as amended). \<^verbatim>\<open>delete\<close> never fails with the invalid-url error, whatever its
  argument. An argument that is not a valid url, not empty and not the name of a property
  inherited from \<^verbatim>\<open>Object.prototype\<close> is used as the identifier as it is, without
  validation: the handle cached under it, or a handle constructed for it on the spot when
  none is cached, is deleted, nothing is cached under it afterwards, and
  \<^verbatim>\<open>delete-document\<close> is emitted carrying it.
\<close>

theorem delete_unvalidated:
  assumes "\<not> isValidAutomergeUrl c x" and "x \<noteq> []" and "x \<notin> set objectPrototypeProps"
  shows "fst (delete c y s0) \<noteq> Inl (InvalidUrlError u) \<and>
     delete c x s =
       (Inr (),
        (case handleCache s x of
           Some r \<Rightarrow>
             s\<lparr>heap := (heap s)[r := deleted (heap s ! r)],
               handleCache := (handleCache s)(x := None),
               emitted := emitted s @ [HandleDelete r, DeleteDocument x]\<rparr>
         | None \<Rightarrow>
             s\<lparr>heap := heap s @ [deleted (DocHandle_new x False)],
               handleCache := (handleCache s)(x := None),
               emitted := emitted s @ [HandleDelete (length (heap s)), DeleteDocument x]\<rparr>))"
proof -
  from assms(1) have "(if isValidAutomergeUrl c x then parseAutomergeUrl c x else Inr x) = Inr x"
    by simp
  then show ?thesis using assms(2,3)
    by (simp add: delete_resolved delete_no_url_error)
qed

theorem delete_unvalidated_witness:
  "\<not> isValidAutomergeUrl test_codec ''garbage'' \<and>
   fst (delete test_codec ''automerge:doc9'' DocCollection_new) \<noteq>
     Inl (InvalidUrlError ''automerge:doc9'') \<and>
   delete test_codec ''garbage'' DocCollection_new =
     (Inr (),
      \<lparr>handleCache = Map.empty, sharePolicy = (\<lambda>peer d. Resolved True),
       heap = [\<lparr>documentId = ''garbage'', state = DELETED, doc = None,
                visited = [IDLE, LOADING, DELETED]\<rparr>],
       emitted = [HandleDelete 0, DeleteDocument ''garbage''], timers = []\<rparr>)"
proof -
  have v: "\<not> isValidAutomergeUrl test_codec ''garbage''" by (simp add: tc_defs)
  have e: "''garbage'' \<noteq> []" by simp
  have p: "''garbage'' \<notin> set objectPrototypeProps" by (simp add: objectPrototypeProps_def)
  note t = delete_unvalidated [OF v e p, of "''automerge:doc9''" DocCollection_new
      "''automerge:doc9''" DocCollection_new]
  from t [THEN conjunct2]
  have d: "delete test_codec ''garbage'' DocCollection_new =
     (Inr (),
      \<lparr>handleCache = Map.empty, sharePolicy = (\<lambda>peer d. Resolved True),
       heap = [\<lparr>documentId = ''garbage'', state = DELETED, doc = None,
                visited = [IDLE, LOADING, DELETED]\<rparr>],
       emitted = [HandleDelete 0, DeleteDocument ''garbage''], timers = []\<rparr>)"
    by (simp add: DocCollection_new_def deleted_def DocHandle_new_def)
  from v t [THEN conjunct1] d show ?thesis by (intro conjI)
qed

text \<open>
  C9 as stated fails at two arguments that are not empty and not valid urls. The cache is
  an object literal, so reading \<^verbatim>\<open>toString\<close> from it yields the function inherited from
  \<^verbatim>\<open>Object.prototype\<close>; \<^verbatim>\<open>delete\<close> then fails with a \<^verbatim>\<open>TypeError\<close>, constructs no handle and
  emits nothing. And for an identifier that is cached, here \<^verbatim>\<open>doc1\<close> after a \<^verbatim>\<open>find\<close>, no
  handle is constructed: the store has one handle before and after.
\<close>

theorem delete_unvalidated_counterexample:
  "\<not> isValidAutomergeUrl test_codec ''toString'' \<and>
   delete test_codec ''toString'' DocCollection_new = (Inl TypeError, DocCollection_new) \<and>
   \<not> isValidAutomergeUrl test_codec ''doc1'' \<and>
   length (heap (run test_codec [Find ''automerge:doc1''] DocCollection_new)) = 1 \<and>
   length (heap (snd (delete test_codec ''doc1''
       (run test_codec [Find ''automerge:doc1''] DocCollection_new)))) = 1"
  by (simp add: run_find tc_id_not_url tc_toString_not_url) (simp add: op_defs tc_defs)

text \<open>
  C10. The share policy of a new registry resolves to true for every peer and every
  document, and no operation of the registry changes it.
\<close>

theorem sharePolicy_default:
  "sharePolicy DocCollection_new peer d = Resolved True \<and>
   sharePolicy (run c ops DocCollection_new) peer d = Resolved True"
  by (simp add: sharePolicy_run) (simp add: DocCollection_new_def)

end
